theory Spec2Isabelle
  imports
    Complex_Main
    "HOL-Library.Multiset"
    "HOL-Library.Sublist"
    "HOL-Library.Char_ord"
    "HOL-Library.List_Lexorder"
begin

section \<open>Text helpers of the training script\<close>

text \<open>
  Texts are \<^typ>\<open>string\<close>s; a character stands for the code point of the same number
  (the Latin-1 range). \<open>is_space\<close> lists the code points of that range that Python's
  \<^verbatim>\<open>str.split()\<close> treats as whitespace.
\<close>

definition is_space :: "char \<Rightarrow> bool" where
  "is_space c = (of_char c \<in> set [9, 10, 11, 12, 13, 28, 29, 30, 31, 32, 133, 160 :: nat])"

text \<open>
  \<^verbatim>\<open>text.split()\<close>: the maximal runs of non-whitespace characters, left to right.
  The first argument is the word read so far.
\<close>

fun split_from :: "string \<Rightarrow> string \<Rightarrow> string list" where
  "split_from w [] = (if w = [] then [] else [w])"
| "split_from w (c # cs) =
     (if is_space c then (if w = [] then split_from [] cs else w # split_from [] cs)
      else split_from (w @ [c]) cs)"

definition split_ws :: "string \<Rightarrow> string list" where
  "split_ws text = split_from [] text"

text \<open>\<^verbatim>\<open>' '.join(words)\<close>\<close>

fun join_sp :: "string list \<Rightarrow> string" where
  "join_sp [] = []"
| "join_sp [w] = w"
| "join_sp (w # v # ws) = w @ '' '' @ join_sp (v # ws)"

section \<open>The Augmenter (\<^verbatim>\<open>augment_text\<close>)\<close>

text \<open>
  The random draws are inputs of the model: \<open>remove_idx\<close> is the value returned by
  \<^verbatim>\<open>np.random.randint(0, len(words))\<close>, and \<open>rnd i\<close> is the value returned by
  \<^verbatim>\<open>np.random.random()\<close> in iteration \<open>i\<close> of the swap loop.
\<close>

definition swap_step :: "(nat \<Rightarrow> real) \<Rightarrow> nat \<Rightarrow> 'a list \<Rightarrow> 'a list" where
  "swap_step rnd i ws =
     (if rnd i < 0.3 then ws[i := ws ! (i + 1), i + 1 := ws ! i] else ws)"

definition swap_adjacent :: "(nat \<Rightarrow> real) \<Rightarrow> 'a list \<Rightarrow> 'a list" where
  "swap_adjacent rnd ws = fold (swap_step rnd) [0 ..< length ws - 1] ws"

definition drop_word :: "nat \<Rightarrow> 'a list \<Rightarrow> 'a list" where
  "drop_word remove_idx ws = take remove_idx ws @ drop (remove_idx + 1) ws"

definition augment_text :: "string \<Rightarrow> nat \<Rightarrow> (nat \<Rightarrow> real) \<Rightarrow> string list" where
  "augment_text text remove_idx rnd =
     (let ws = split_ws text in
      if length ws \<le> 3 then [text]
      else [text]
         @ (if length ws > 4 then [join_sp (drop_word remove_idx ws)] else [])
         @ [join_sp (swap_adjacent rnd ws)])"

text \<open>
  The augmentation loop of \<^verbatim>\<open>load_and_preprocess_data\<close>: row \<open>k\<close> is augmented with
  the draws \<open>ridx k\<close> and \<open>rnd k\<close>, and its emotion is repeated once per variant.
\<close>

fun augment_loop ::
  "(nat \<Rightarrow> nat) \<Rightarrow> (nat \<Rightarrow> nat \<Rightarrow> real) \<Rightarrow> nat \<Rightarrow> (string \<times> 'e) list
    \<Rightarrow> string list \<times> 'e list \<Rightarrow> string list \<times> 'e list" where
  "augment_loop ridx rnd k [] acc = acc"
| "augment_loop ridx rnd k ((text, emotion) # rows) (augmented_texts, augmented_emotions) =
     (let aug_texts = augment_text text (ridx k) (rnd k)
      in augment_loop ridx rnd (Suc k) rows
           (augmented_texts @ aug_texts,
            augmented_emotions @ replicate (length aug_texts) emotion))"

text \<open>Fixed draws used at concrete inputs: always below 0.3, never below 0.3.\<close>

definition always_swap :: "nat \<Rightarrow> real" where
  "always_swap i = 0"

definition never_swap :: "nat \<Rightarrow> real" where
  "never_swap i = 1 / 2"

section \<open>The Label Vocabulary Builder\<close>

text \<open>
  Modelled from the spec: \<^verbatim>\<open>LabelEncoder.fit_transform\<close> and \<^verbatim>\<open>classes_\<close> belong to
  scikit-learn and are not under src/. Following section 4.3 of the specification, the
  classes are the distinct label strings in sorted (lexicographic, by code point) order,
  and a label's id is its position in that list.
\<close>

definition label_classes :: "string list \<Rightarrow> string list" where
  "label_classes labels = sort (remdups labels)"

definition label_ids :: "string list \<Rightarrow> string \<rightharpoonup> nat" where
  "label_ids labels = map_of (zip (label_classes labels) [0 ..< length (label_classes labels)])"

definition fit_transform :: "string list \<Rightarrow> nat option list" where
  "fit_transform labels = map (label_ids labels) labels"

text \<open>\<^verbatim>\<open>{i: label for i, label in enumerate(label_encoder.classes_)}\<close>\<close>

definition label_mapping :: "string list \<Rightarrow> (nat \<times> string) list" where
  "label_mapping labels = enumerate 0 (label_classes labels)"

section \<open>The Checkpoint Selector\<close>

definition NUM_EPOCHS :: nat where
  "NUM_EPOCHS = 10"

text \<open>
  The part of the training loop that decides about saving. \<open>saved_at\<close> lists the epochs
  (counted from 0) after which \<^verbatim>\<open>save_pretrained\<close> was called for model and tokenizer.
  Accuracies are the real numbers the floats denote.
\<close>

record checkpoint_state =
  best_accuracy :: real
  saved_at :: "nat list"

definition initial_checkpoint :: checkpoint_state where
  "initial_checkpoint = \<lparr>best_accuracy = 0, saved_at = []\<rparr>"

definition checkpoint_step :: "(nat \<Rightarrow> real) \<Rightarrow> nat \<Rightarrow> checkpoint_state \<Rightarrow> checkpoint_state" where
  "checkpoint_step val_acc epoch st =
     (if val_acc epoch > best_accuracy st
      then \<lparr>best_accuracy = val_acc epoch, saved_at = saved_at st @ [epoch]\<rparr>
      else st)"

definition checkpoint_loop :: "nat \<Rightarrow> (nat \<Rightarrow> real) \<Rightarrow> checkpoint_state" where
  "checkpoint_loop num_epochs val_acc =
     fold (checkpoint_step val_acc) [0 ..< num_epochs] initial_checkpoint"

section \<open>The Fine-Tuning Policy\<close>

text \<open>
  A parameter has a name inside its sub-module and the flag \<^verbatim>\<open>requires_grad\<close>. The
  model has the four sub-modules with parameters of \<^verbatim>\<open>BertForSequenceClassification\<close>;
  which parameters each holds is an input.
\<close>

record param =
  pname :: string
  requires_grad :: bool

record bert_model =
  embeddings :: "param list"
  encoder_layer :: "param list list"
  pooler :: "param list"
  classifier :: "param list"

definition freeze :: "param \<Rightarrow> param" where
  "freeze p = p\<lparr>requires_grad := False\<rparr>"

definition freeze_layer :: "nat \<times> param list \<Rightarrow> param list" where
  "freeze_layer il = (case il of (i, layer) \<Rightarrow> if i < 10 then map freeze layer else layer)"

definition apply_freezing :: "bert_model \<Rightarrow> bert_model" where
  "apply_freezing m =
     m\<lparr>embeddings := map freeze (embeddings m),
       encoder_layer := map freeze_layer (enumerate 0 (encoder_layer m))\<rparr>"

text \<open>\<^verbatim>\<open>str(n)\<close> for a natural number\<close>

fun str_nat :: "nat \<Rightarrow> string" where
  "str_nat n =
     (if n < 10 then [char_of (48 + n)]
      else str_nat (n div 10) @ [char_of (48 + n mod 10)])"

declare str_nat.simps [simp del]

text \<open>
  \<^verbatim>\<open>model.named_parameters()\<close>: every parameter with its qualified name, the path of its
  sub-module followed by its own name. A parameter object is identified by this name.
\<close>

definition qualify :: "string \<Rightarrow> param \<Rightarrow> string \<times> param" where
  "qualify path p = (path @ pname p, p)"

definition layer_path :: "nat \<Rightarrow> string" where
  "layer_path i = ''bert.encoder.layer.'' @ str_nat i @ ''.''"

definition named_layer :: "nat \<times> param list \<Rightarrow> (string \<times> param) list" where
  "named_layer il = (case il of (i, layer) \<Rightarrow> map (qualify (layer_path i)) layer)"

definition named_parameters :: "bert_model \<Rightarrow> (string \<times> param) list" where
  "named_parameters m =
     map (qualify ''bert.embeddings.'') (embeddings m)
     @ concat (map named_layer (enumerate 0 (encoder_layer m)))
     @ map (qualify ''bert.pooler.'') (pooler m)
     @ map (qualify ''classifier.'') (classifier m)"

text \<open>\<^verbatim>\<open>pat in s\<close> on strings\<close>

fun contains :: "string \<Rightarrow> string \<Rightarrow> bool" where
  "contains pat [] = (pat = [])"
| "contains pat (c # cs) = (prefix pat (c # cs) \<or> contains pat cs)"

record param_group =
  params :: "(string \<times> param) list"
  lr :: real
  weight_decay :: real

definition select :: "string \<Rightarrow> bert_model \<Rightarrow> (string \<times> param) list" where
  "select pat m = filter (\<lambda>np. contains pat (fst np)) (named_parameters m)"

definition optimizer_grouped_parameters :: "bert_model \<Rightarrow> param_group list" where
  "optimizer_grouped_parameters m =
     [\<lparr>params = select ''classifier'' m, lr = 2 / 10 ^ 4, weight_decay = 1 / 100\<rparr>,
      \<lparr>params = select ''layer.11'' m, lr = 1 / 10 ^ 4, weight_decay = 1 / 100\<rparr>,
      \<lparr>params = select ''layer.10'' m, lr = 5 / 10 ^ 5, weight_decay = 1 / 100\<rparr>]"

text \<open>The parameters the optimizer holds, and so the only ones its steps can change.\<close>

definition optimizer_params :: "param_group list \<Rightarrow> (string \<times> param) list" where
  "optimizer_params groups = concat (map params groups)"

text \<open>
  The state reached in \<^verbatim>\<open>train_sentiment_model\<close> before training: the loaded model
  after the freezing loops, and the optimizer groups built from it.
\<close>

definition fine_tuning_policy :: "bert_model \<Rightarrow> bert_model \<times> param_group list" where
  "fine_tuning_policy m =
     (let m' = apply_freezing m in (m', optimizer_grouped_parameters m'))"

text \<open>
  The model as \<^verbatim>\<open>from_pretrained\<close> returns it for a 12-block encoder: 12 blocks, every
  parameter trainable, and no parameter whose own name (inside its sub-module) contains
  one of the three strings the optimizer groups are selected by.
\<close>

definition plain_name :: "string \<Rightarrow> bool" where
  "plain_name n =
     (\<not> contains ''classifier'' n \<and> \<not> contains ''layer.11'' n \<and> \<not> contains ''layer.10'' n)"

definition all_params :: "bert_model \<Rightarrow> param list" where
  "all_params m = embeddings m @ concat (encoder_layer m) @ pooler m @ classifier m"

definition as_loaded :: "bert_model \<Rightarrow> bool" where
  "as_loaded m =
     (length (encoder_layer m) = 12
      \<and> list_all (\<lambda>p. requires_grad p \<and> plain_name (pname p)) (all_params m))"

text \<open>
  The parameter names of \<^verbatim>\<open>bert-base-uncased\<close> with a classification head, all trainable
  as \<^verbatim>\<open>from_pretrained\<close> returns them; used at concrete inputs.
\<close>

definition trainable :: "string \<Rightarrow> param" where
  "trainable n = \<lparr>pname = n, requires_grad = True\<rparr>"

definition bert_layer_names :: "string list" where
  "bert_layer_names =
     [''attention.self.query.weight'', ''attention.self.query.bias'',
      ''attention.self.key.weight'', ''attention.self.key.bias'',
      ''attention.self.value.weight'', ''attention.self.value.bias'',
      ''attention.output.dense.weight'', ''attention.output.dense.bias'',
      ''attention.output.LayerNorm.weight'', ''attention.output.LayerNorm.bias'',
      ''intermediate.dense.weight'', ''intermediate.dense.bias'',
      ''output.dense.weight'', ''output.dense.bias'',
      ''output.LayerNorm.weight'', ''output.LayerNorm.bias'']"

definition bert_base_uncased :: bert_model where
  "bert_base_uncased =
     \<lparr>embeddings = map trainable
        [''word_embeddings.weight'', ''position_embeddings.weight'',
         ''token_type_embeddings.weight'', ''LayerNorm.weight'', ''LayerNorm.bias''],
      encoder_layer = replicate 12 (map trainable bert_layer_names),
      pooler = map trainable [''dense.weight'', ''dense.bias''],
      classifier = map trainable [''weight'', ''bias'']\<rparr>"

section \<open>The Learning-Rate Scheduler\<close>

text \<open>\<open>steps_per_epoch\<close> is \<^verbatim>\<open>len(train_loader)\<close>.\<close>

definition warmup_steps :: "nat \<Rightarrow> nat" where
  "warmup_steps steps_per_epoch = steps_per_epoch * 2"

definition total_steps :: "nat \<Rightarrow> nat" where
  "total_steps steps_per_epoch = steps_per_epoch * NUM_EPOCHS"

text \<open>
  Modelled from the spec: the multiplier of the "linear" schedule is computed by
  \<^verbatim>\<open>transformers.get_scheduler\<close>, which is not under src/. Following section 4.5 of the
  specification, it rises linearly from 0 at step 0 to 1 at the end of the warmup and
  then decays linearly to 0 at the last step; it stays 0 afterwards.
\<close>

definition lr_multiplier :: "nat \<Rightarrow> nat \<Rightarrow> nat \<Rightarrow> real" where
  "lr_multiplier num_warmup_steps num_training_steps step =
     (if step < num_warmup_steps then real step / real num_warmup_steps
      else if step \<le> num_training_steps
      then real (num_training_steps - step) / real (num_training_steps - num_warmup_steps)
      else 0)"

definition schedule :: "nat \<Rightarrow> nat \<Rightarrow> real" where
  "schedule steps_per_epoch step =
     lr_multiplier (warmup_steps steps_per_epoch) (total_steps steps_per_epoch) step"

text \<open>
  The calls \<^verbatim>\<open>train_epoch\<close> makes on the optimizer and the scheduler, in order: for each
  batch \<^verbatim>\<open>zero_grad\<close>, \<^verbatim>\<open>optimizer.step\<close>, \<^verbatim>\<open>scheduler.step\<close>. The training loop calls
  \<^verbatim>\<open>train_epoch\<close> once per epoch on the same loader.
\<close>

datatype call = Zero_grad | Optimizer_step | Scheduler_step

definition train_batch :: "'b \<Rightarrow> call list \<Rightarrow> call list" where
  "train_batch batch calls = calls @ [Zero_grad, Optimizer_step, Scheduler_step]"

definition train_epoch :: "'b list \<Rightarrow> call list \<Rightarrow> call list" where
  "train_epoch data_loader calls = fold train_batch data_loader calls"

definition training_calls :: "nat \<Rightarrow> 'b list \<Rightarrow> call list" where
  "training_calls num_epochs train_loader =
     fold (\<lambda>epoch. train_epoch train_loader) [0 ..< num_epochs] []"

section \<open>Loading the dataset\<close>

text \<open>
  A data frame as \<^verbatim>\<open>pd.read_csv\<close> returns it: the column names and the rows; a missing
  field is \<open>NaN\<close>.
\<close>

datatype cell = NaN | Str string

record dataframe =
  columns :: "string list"
  records :: "cell list list"

fun column_index :: "string \<Rightarrow> string list \<Rightarrow> nat option" where
  "column_index name [] = None"
| "column_index name (c # cs) =
     (if c = name then Some 0 else map_option Suc (column_index name cs))"

definition field :: "dataframe \<Rightarrow> string \<Rightarrow> cell list \<Rightarrow> cell" where
  "field df name row =
     (case column_index name (columns df) of
        None \<Rightarrow> NaN
      | Some i \<Rightarrow> if i < length row then row ! i else NaN)"

text \<open>\<^verbatim>\<open>df.dropna(subset=['text', 'emotion'])\<close>\<close>

definition complete :: "dataframe \<Rightarrow> cell list \<Rightarrow> bool" where
  "complete df row = (field df ''text'' row \<noteq> NaN \<and> field df ''emotion'' row \<noteq> NaN)"

definition dropna :: "dataframe \<Rightarrow> dataframe" where
  "dropna df = df\<lparr>records := filter (complete df) (records df)\<rparr>"

text \<open>
  \<^verbatim>\<open>preprocess_text\<close>. The tokenizer and the lemmatizer are NLTK's and are inputs.
  \<open>lower_char\<close> is \<^verbatim>\<open>str.lower\<close> on the letters that survive the filter that follows.
\<close>

definition lower_char :: "char \<Rightarrow> char" where
  "lower_char c =
     (if 65 \<le> (of_char c :: nat) \<and> (of_char c :: nat) \<le> 90 then char_of (of_char c + 32 :: nat)
      else c)"

definition keep_char :: "char \<Rightarrow> bool" where
  "keep_char c = ((97 \<le> (of_char c :: nat) \<and> (of_char c :: nat) \<le> 122) \<or> is_space c)"

definition preprocess_text :: "(string \<Rightarrow> string list) \<Rightarrow> (string \<Rightarrow> string) \<Rightarrow> cell \<Rightarrow> string" where
  "preprocess_text word_tokenize lemmatize text =
     (case text of
        Str s \<Rightarrow> join_sp (map lemmatize (word_tokenize (filter keep_char (map lower_char s))))
      | NaN \<Rightarrow> [])"

datatype error = Read_error | ValueError | AttributeError

text \<open>The label array \<^verbatim>\<open>np.array(augmented_emotions)\<close> as strings.\<close>

fun str_of :: "cell \<Rightarrow> string" where
  "str_of (Str s) = s"
| "str_of NaN = ''nan''"

text \<open>
  The dtype pandas gives a column on reading: \<^verbatim>\<open>object\<close> when the file has no rows or
  the column holds a string, \<^verbatim>\<open>float64\<close> when the file has rows and every field of the
  column is missing.
\<close>

definition object_dtype :: "dataframe \<Rightarrow> string \<Rightarrow> bool" where
  "object_dtype df name =
     (records df = [] \<or> list_ex (\<lambda>row. field df name row \<noteq> NaN) (records df))"

text \<open>
  Lines 187 to 192 of \<^verbatim>\<open>load_and_preprocess_data\<close>: \<^verbatim>\<open>dropna\<close>, then \<^verbatim>\<open>preprocess_text\<close>
  applied to the text column, then the filter on the length of the text. When no row is
  left, \<^verbatim>\<open>apply\<close> keeps the dtype of the column, and the accessor \<^verbatim>\<open>.str\<close> of line 192
  raises \<^verbatim>\<open>AttributeError\<close> on a column that is not of dtype \<^verbatim>\<open>object\<close>.
\<close>

definition normalized_rows ::
  "(string \<Rightarrow> string list) \<Rightarrow> (string \<Rightarrow> string) \<Rightarrow> dataframe
    \<Rightarrow> error + (string \<times> string) list" where
  "normalized_rows word_tokenize lemmatize df =
     (let rows = map (\<lambda>row. (preprocess_text word_tokenize lemmatize (field df ''text'' row),
                              str_of (field df ''emotion'' row)))
                     (records (dropna df))
      in if rows = [] \<and> \<not> object_dtype df ''text'' then Inl AttributeError
         else Inr (filter (\<lambda>row. length (fst row) > 0) rows))"

text \<open>
  \<^verbatim>\<open>load_and_preprocess_data\<close>. \<open>read_csv\<close> gives the frame read from a path, or \<open>None\<close>
  when \<^verbatim>\<open>pd.read_csv\<close> raises.
\<close>

definition load_and_preprocess_data ::
  "(string \<Rightarrow> dataframe option) \<Rightarrow> (string \<Rightarrow> string list) \<Rightarrow> (string \<Rightarrow> string)
    \<Rightarrow> (nat \<Rightarrow> nat) \<Rightarrow> (nat \<Rightarrow> nat \<Rightarrow> real) \<Rightarrow> string
    \<Rightarrow> error + string list \<times> string list" where
  "load_and_preprocess_data read_csv word_tokenize lemmatize ridx rnd file_path =
     (case read_csv file_path of
        None \<Rightarrow> Inl Read_error
      | Some df \<Rightarrow>
          if \<not> (\<forall>col \<in> set [''text'', ''emotion'']. col \<in> set (columns df)) then Inl ValueError
          else (case normalized_rows word_tokenize lemmatize df of
                  Inl e \<Rightarrow> Inl e
                | Inr rows \<Rightarrow> Inr (augment_loop ridx rnd 0 rows ([], []))))"

section \<open>The training run and its files\<close>

text \<open>
  What a run leaves in the output directory, in order: the directory itself, the label
  vocabulary file, the checkpoint (model and tokenizer) and the configuration file.
\<close>

datatype artifact =
    Output_dir
  | Label_classes_file "string list"
  | Best_model nat
  | Model_config_file nat "(nat \<times> string) list"




section \<open>The serving endpoint \<^verbatim>\<open>/analyze\<close>\<close>

text \<open>
  \<open>env\<close> is the value of \<^verbatim>\<open>SUICIDAL_CONFIDENCE_THRESHOLD\<close> if set; \<open>parse_float\<close> is
  Python's \<^verbatim>\<open>float\<close> on strings, \<open>None\<close> where it raises. \<open>predict\<close> is tokenizer, model,
  softmax, \<^verbatim>\<open>torch.max\<close> and the class lookup: the predicted emotion and its confidence,
  or \<open>None\<close> where one of them raises. Confidence and threshold are the real numbers the
  floats denote.
\<close>

datatype response =
    Error_response nat string
  | Analysis string real bool

definition threshold :: "(string \<Rightarrow> real option) \<Rightarrow> string option \<Rightarrow> real option" where
  "threshold parse_float env = (case env of None \<Rightarrow> Some 0.75 | Some s \<Rightarrow> parse_float s)"

definition analyze_sentiment ::
  "bool \<Rightarrow> (string \<Rightarrow> real option) \<Rightarrow> string option \<Rightarrow> (string \<Rightarrow> (string \<times> real) option)
    \<Rightarrow> string option \<Rightarrow> response" where
  "analyze_sentiment model_loaded parse_float env predict request_text =
     (if \<not> model_loaded then Error_response 500 ''Model not loaded, please check server logs.''
      else let text = (case request_text of None \<Rightarrow> [] | Some t \<Rightarrow> t) in
        if text = [] then Error_response 400 ''No text provided''
        else (case predict text of
                None \<Rightarrow> Error_response 500 ''Internal server error analyzing sentiment.''
              | Some (predicted_emotion, confidence) \<Rightarrow>
                  (case threshold parse_float env of
                     None \<Rightarrow> Error_response 500 ''Internal server error analyzing sentiment.''
                   | Some t \<Rightarrow>
                       Analysis predicted_emotion confidence
                         (predicted_emotion = ''suicidal'' \<and> confidence > t))))"

text \<open>A classifier that answers with a fixed emotion and confidence, for concrete inputs.\<close>

definition fixed_prediction :: "string \<Rightarrow> real \<Rightarrow> string \<Rightarrow> (string \<times> real) option" where
  "fixed_prediction emotion confidence text = Some (emotion, confidence)"

definition no_float :: "string \<Rightarrow> real option" where
  "no_float s = None"

text \<open>Python's \<^verbatim>\<open>float\<close> on the two strings used at concrete inputs.\<close>

definition float_of :: "string \<Rightarrow> real option" where
  "float_of s =
     (if s = ''0.5'' then Some 0.5 else if s = ''0.9'' then Some 0.9 else None)"

section \<open>Properties of the Augmenter\<close>

lemma split_from_nonspace:
  "\<forall>c \<in> set u. \<not> is_space c \<Longrightarrow> split_from w (u @ s) = split_from (w @ u) s"
  by (induction u arbitrary: w) simp_all

lemma split_from_words:
  "\<forall>c \<in> set w. \<not> is_space c \<Longrightarrow> v \<in> set (split_from w s) \<Longrightarrow> v \<noteq> [] \<and> (\<forall>c \<in> set v. \<not> is_space c)"
proof (induction s arbitrary: w)
  case Nil
  then show ?case by (simp split: if_splits)
next
  case (Cons c cs)
  show ?case
  proof (cases "is_space c")
    case True
    with Cons.prems have "v = w \<and> w \<noteq> [] \<or> v \<in> set (split_from [] cs)"
      by (simp split: if_splits)
    then show ?thesis
    proof
      assume "v = w \<and> w \<noteq> []"
      with Cons.prems(1) show ?thesis by simp
    next
      assume "v \<in> set (split_from [] cs)"
      with Cons.IH [of "[]"] show ?thesis by simp
    qed
  next
    case False
    with Cons.prems have "v \<in> set (split_from (w @ [c]) cs)" by simp
    moreover from False Cons.prems(1) have "\<forall>d \<in> set (w @ [c]). \<not> is_space d" by simp
    ultimately show ?thesis using Cons.IH [of "w @ [c]"] by blast
  qed
qed

lemma space_is_space: "is_space CHR '' ''"
  by (simp add: is_space_def)

lemma split_join:
  "\<forall>w \<in> set ws. w \<noteq> [] \<and> (\<forall>c \<in> set w. \<not> is_space c) \<Longrightarrow> split_from [] (join_sp ws) = ws"
proof (induction ws rule: join_sp.induct)
  case 1
  then show ?case by simp
next
  case (2 w)
  then have "split_from [] (w @ []) = split_from ([] @ w) []"
    by (intro split_from_nonspace) simp
  with 2 show ?case by simp
next
  case (3 w v ws)
  then have "split_from [] (w @ '' '' @ join_sp (v # ws)) = split_from ([] @ w) ('' '' @ join_sp (v # ws))"
    by (intro split_from_nonspace) simp
  with 3 show ?case by (simp add: space_is_space)
qed

lemma swap_step_length: "length (swap_step rnd i ws) = length ws"
  by (simp add: swap_step_def)

lemma swap_step_mset: "i + 1 < length ws \<Longrightarrow> mset (swap_step rnd i ws) = mset ws"
  by (simp add: swap_step_def mset_swap)

lemma fold_swap_step:
  "\<forall>i \<in> set is. i + 1 < length ws \<Longrightarrow>
     length (fold (swap_step rnd) is ws) = length ws \<and> mset (fold (swap_step rnd) is ws) = mset ws"
proof (induction "is" arbitrary: ws)
  case Nil
  then show ?case by simp
next
  case (Cons i "is")
  have "\<forall>j \<in> set is. j + 1 < length (swap_step rnd i ws)"
    using Cons.prems by (simp add: swap_step_length)
  from Cons.IH [OF this] Cons.prems show ?case
    by (simp add: swap_step_length swap_step_mset)
qed

lemma swap_adjacent_mset: "mset (swap_adjacent rnd ws) = mset ws"
proof -
  have "\<forall>i \<in> set [0 ..< length ws - 1]. i + 1 < length ws" by auto
  from fold_swap_step [OF this] show ?thesis by (simp add: swap_adjacent_def)
qed

lemma swap_adjacent_length: "length (swap_adjacent rnd ws) = length ws"
proof -
  have "\<forall>i \<in> set [0 ..< length ws - 1]. i + 1 < length ws" by auto
  from fold_swap_step [OF this] show ?thesis by (simp add: swap_adjacent_def)
qed

lemma split_join_swap:
  "split_ws (join_sp (swap_adjacent rnd (split_ws text))) = swap_adjacent rnd (split_ws text)"
proof -
  have "set_mset (mset (swap_adjacent rnd (split_ws text))) = set_mset (mset (split_ws text))"
    by (simp only: swap_adjacent_mset)
  then have "set (swap_adjacent rnd (split_ws text)) = set (split_ws text)"
    by simp
  then have "\<forall>w \<in> set (swap_adjacent rnd (split_ws text)). w \<noteq> [] \<and> (\<forall>c \<in> set w. \<not> is_space c)"
    using split_from_words [of "[]" _ "text"] by (simp add: split_ws_def)
  from split_join [OF this] show ?thesis
    by (simp add: split_ws_def)
qed

lemma augment_loop_zip:
  "length ts = length es \<Longrightarrow>
   zip (fst (augment_loop ridx rnd k rows (ts, es))) (snd (augment_loop ridx rnd k rows (ts, es)))
     = zip ts es
       @ concat (map (\<lambda>jr. map (\<lambda>v. (v, snd (snd jr)))
                              (augment_text (fst (snd jr)) (ridx (fst jr)) (rnd (fst jr))))
                  (enumerate k rows))"
proof (induction rows arbitrary: k ts es)
  case Nil
  then show ?case by simp
next
  case (Cons row rows)
  obtain t e where row: "row = (t, e)" by (cases row)
  let ?vs = "augment_text t (ridx k) (rnd k)"
  have len: "length (ts @ ?vs) = length (es @ replicate (length ?vs) e)"
    using Cons.prems by simp
  have z: "zip ?vs (replicate (length ?vs) e) = map (\<lambda>v. (v, e)) ?vs"
    by (simp add: zip_replicate2)
  show ?case
    using Cons.IH [OF len, of "Suc k"] Cons.prems
    by (simp add: row Let_def z)
qed

text \<open>
  Claim C7. A text of at most 3 words is returned alone and unchanged, whatever the
  random draws.
\<close>

theorem augment_short_text:
  "length (split_ws text) \<le> 3 \<Longrightarrow> augment_text text remove_idx rnd = [text]"
  by (simp add: augment_text_def)

text \<open>
  The hypothesis of C7 at the text \<^verbatim>\<open>i am good\<close>.
\<close>

theorem augment_short_text_witness:
  "length (split_ws ''i am good'') \<le> 3 \<and> augment_text ''i am good'' 0 always_swap = [''i am good'']"
proof -
  have h: "length (split_ws ''i am good'') \<le> 3"
    by (simp add: split_ws_def is_space_def)
  from h augment_short_text [OF h, of 0 always_swap] show ?thesis by simp
qed

text \<open>
  Claim C2 as stated fails: a text of exactly 4 words has more than 3 words, and the
  guard \<^verbatim>\<open>len(words) > 4\<close> skips the word-drop variant, so 2 variants are returned.
\<close>

theorem augment_four_words_counterexample:
  "3 < length (split_ws ''i feel very sad'')
   \<and> augment_text ''i feel very sad'' 0 never_swap = [''i feel very sad'', ''i feel very sad'']
   \<and> length (augment_text ''i feel very sad'' 0 never_swap) \<noteq> 3"
  by (simp add: augment_text_def split_ws_def is_space_def swap_adjacent_def swap_step_def
      never_swap_def)

text \<open>
  Claim C2, amended. A text of more than 4 words gives exactly 3 variants in the order
  original, word-drop, adjacent-swap; a text of exactly 4 words gives exactly 2 variants,
  original and adjacent-swap. In both cases the first variant is the input text, and the
  loop of \<^verbatim>\<open>load_and_preprocess_data\<close> pairs every variant with the emotion of the row.
\<close>

theorem augment_long_text:
  "3 < length (split_ws text) \<Longrightarrow>
     augment_text text remove_idx rnd =
       (if 4 < length (split_ws text)
        then [text, join_sp (drop_word remove_idx (split_ws text)),
              join_sp (swap_adjacent rnd (split_ws text))]
        else [text, join_sp (swap_adjacent rnd (split_ws text))])
     \<and> hd (augment_text text remove_idx rnd) = text
     \<and> zip (fst (augment_loop ridx rnds k [(text, emotion)] ([], [])))
           (snd (augment_loop ridx rnds k [(text, emotion)] ([], [])))
         = map (\<lambda>v. (v, emotion)) (augment_text text (ridx k) (rnds k))"
  using augment_loop_zip [of "[]" "[]" ridx rnds k "[(text, emotion)]"]
  by (simp add: augment_text_def Let_def)

text \<open>
  The hypothesis of the amended C2 at a text of 5 words, with the word at index 2
  dropped and every swap taken.
\<close>

theorem augment_long_text_witness:
  "3 < length (split_ws ''i do not feel good'')
   \<and> augment_text ''i do not feel good'' 2 always_swap
       = [''i do not feel good'', ''i do feel good'', ''do not feel good i'']
   \<and> augment_loop (\<lambda>k. 2) (\<lambda>k. always_swap) 0 [(''i do not feel good'', ''sad'')] ([], [])
       = ([''i do not feel good'', ''i do feel good'', ''do not feel good i''],
          [''sad'', ''sad'', ''sad''])"
proof -
  have h: "3 < length (split_ws ''i do not feel good'')"
    by (simp add: split_ws_def is_space_def)
  have e: "augment_text ''i do not feel good'' 2 always_swap
       = [''i do not feel good'', ''i do feel good'', ''do not feel good i'']"
    using augment_long_text [OF h, of 2 always_swap "\<lambda>k. 2" "\<lambda>k. always_swap" 0 "''sad''"]
    by (simp add: split_ws_def is_space_def swap_adjacent_def swap_step_def always_swap_def
        drop_word_def)
  from h e show ?thesis by (simp add: Let_def)
qed

text \<open>
  Claim C9. Whatever the random draws, the swap loop returns a permutation of the words:
  the same multiset and the same number of words. The variant is the words joined by
  single spaces; splitting it gives the swapped words back, so the adjacent-swap variant
  (the last one returned for a text of more than 3 words) has the words of the input.
\<close>

theorem adjacent_swap_permutation:
  "mset (swap_adjacent rnd ws) = mset ws
   \<and> length (swap_adjacent rnd ws) = length ws
   \<and> split_ws (join_sp (swap_adjacent rnd (split_ws text))) = swap_adjacent rnd (split_ws text)
   \<and> (3 < length (split_ws text) \<longrightarrow>
        mset (split_ws (last (augment_text text remove_idx rnd))) = mset (split_ws text)
        \<and> length (split_ws (last (augment_text text remove_idx rnd))) = length (split_ws text))"
  by (simp add: swap_adjacent_mset swap_adjacent_length split_join_swap augment_text_def Let_def)

text \<open>
  The hypothesis inside C9 at a text of 5 words with every swap taken.
\<close>

theorem adjacent_swap_permutation_witness:
  "3 < length (split_ws ''i do not feel good'')
   \<and> last (augment_text ''i do not feel good'' 2 always_swap) = ''do not feel good i''
   \<and> mset (split_ws ''do not feel good i'') = mset (split_ws ''i do not feel good'')"
proof -
  have h: "3 < length (split_ws ''i do not feel good'')"
    by (simp add: split_ws_def is_space_def)
  have l: "last (augment_text ''i do not feel good'' 2 always_swap) = ''do not feel good i''"
    by (simp add: augment_text_def split_ws_def is_space_def swap_adjacent_def swap_step_def
        always_swap_def drop_word_def)
  have "mset (split_ws (last (augment_text ''i do not feel good'' 2 always_swap)))
          = mset (split_ws ''i do not feel good'')"
    using adjacent_swap_permutation [of always_swap "[]" "''i do not feel good''" 2] h by blast
  then have "mset (split_ws ''do not feel good i'') = mset (split_ws ''i do not feel good'')"
    by (simp only: l)
  with h l show ?thesis by blast
qed

section \<open>Properties of the Checkpoint Selector\<close>

lemma checkpoint_loop_Suc:
  "checkpoint_loop (Suc n) val_acc = checkpoint_step val_acc n (checkpoint_loop n val_acc)"
  by (simp add: checkpoint_loop_def)

lemma saved_at_filter:
  "saved_at (checkpoint_loop n val_acc)
     = filter (\<lambda>e. val_acc e > best_accuracy (checkpoint_loop e val_acc)) [0 ..< n]"
proof (induction n)
  case 0
  then show ?case by (simp add: checkpoint_loop_def initial_checkpoint_def)
next
  case (Suc n)
  then show ?case by (simp add: checkpoint_loop_Suc checkpoint_step_def)
qed

lemma best_accuracy_Max:
  "best_accuracy (checkpoint_loop n val_acc) = Max (insert 0 (val_acc ` {..<n}))"
proof (induction n)
  case 0
  then show ?case by (simp add: checkpoint_loop_def initial_checkpoint_def)
next
  case (Suc n)
  define M where "M = Max (insert 0 (val_acc ` {..<n}))"
  have "insert 0 (val_acc ` {..<Suc n}) = insert (val_acc n) (insert 0 (val_acc ` {..<n}))"
    by (auto simp: lessThan_Suc)
  then have "Max (insert 0 (val_acc ` {..<Suc n})) = max (val_acc n) M"
    unfolding M_def
    by (simp only: Max_insert [of "insert 0 (val_acc ` {..<n})" "val_acc n"] finite_insert
        finite_imageI finite_lessThan insert_not_empty not_False_eq_True)
  moreover from Suc have "best_accuracy (checkpoint_loop n val_acc) = M"
    by (simp only: M_def)
  ultimately show ?case
    by (simp add: checkpoint_loop_Suc checkpoint_step_def max_def)
qed

lemma checkpoint_example:
  "checkpoint_loop 4 (nth [0.60, 0.55, 0.60, 0.72]) = \<lparr>best_accuracy = 0.72, saved_at = [0, 3]\<rparr>"
  by (simp add: checkpoint_loop_def initial_checkpoint_def checkpoint_step_def eval_nat_numeral upt_rec)

text \<open>
  Claim C4. The loop starts with best accuracy 0 and nothing saved. After the validation
  of an epoch, model and tokenizer are saved exactly when the accuracy of that epoch is
  strictly greater than the best so far, which then becomes that accuracy; an equal
  accuracy saves nothing. So the epochs with a save are those whose accuracy exceeds
  the best before them, and the best is the maximum of 0 and the accuracies seen. For
  the accuracies 0.60, 0.55, 0.60, 0.72 there are two saves, after the first and the
  fourth epoch (epochs 0 and 3).
\<close>

theorem checkpoint_selector:
  "checkpoint_loop 0 val_acc = \<lparr>best_accuracy = 0, saved_at = []\<rparr>
   \<and> checkpoint_loop (Suc n) val_acc = checkpoint_step val_acc n (checkpoint_loop n val_acc)
   \<and> saved_at (checkpoint_step val_acc n st)
       = (if val_acc n > best_accuracy st then saved_at st @ [n] else saved_at st)
   \<and> best_accuracy (checkpoint_step val_acc n st)
       = (if val_acc n > best_accuracy st then val_acc n else best_accuracy st)
   \<and> saved_at (checkpoint_loop n val_acc)
       = filter (\<lambda>e. val_acc e > best_accuracy (checkpoint_loop e val_acc)) [0 ..< n]
   \<and> best_accuracy (checkpoint_loop n val_acc) = Max (insert 0 (val_acc ` {..<n}))
   \<and> checkpoint_loop 4 (nth [0.60, 0.55, 0.60, 0.72]) = \<lparr>best_accuracy = 0.72, saved_at = [0, 3]\<rparr>"
proof (intro conjI)
  show "checkpoint_loop 0 val_acc = \<lparr>best_accuracy = 0, saved_at = []\<rparr>"
    by (simp add: checkpoint_loop_def initial_checkpoint_def)
  show "checkpoint_loop (Suc n) val_acc = checkpoint_step val_acc n (checkpoint_loop n val_acc)"
    by (rule checkpoint_loop_Suc)
  show "saved_at (checkpoint_step val_acc n st)
       = (if val_acc n > best_accuracy st then saved_at st @ [n] else saved_at st)"
    by (simp add: checkpoint_step_def)
  show "best_accuracy (checkpoint_step val_acc n st)
       = (if val_acc n > best_accuracy st then val_acc n else best_accuracy st)"
    by (simp add: checkpoint_step_def)
  show "saved_at (checkpoint_loop n val_acc)
       = filter (\<lambda>e. val_acc e > best_accuracy (checkpoint_loop e val_acc)) [0 ..< n]"
    by (rule saved_at_filter)
  show "best_accuracy (checkpoint_loop n val_acc) = Max (insert 0 (val_acc ` {..<n}))"
    by (rule best_accuracy_Max)
  show "checkpoint_loop 4 (nth [0.60, 0.55, 0.60, 0.72]) = \<lparr>best_accuracy = 0.72, saved_at = [0, 3]\<rparr>"
    by (rule checkpoint_example)
qed

section \<open>Properties of the Label Vocabulary Builder\<close>

lemma label_classes_sorted_list: "label_classes labels = sorted_list_of_set (set labels)"
  by (simp add: label_classes_def sorted_list_of_set_sort_remdups)

lemma label_classes_props:
  "sorted (label_classes labels)" "distinct (label_classes labels)"
  "set (label_classes labels) = set labels" "length (label_classes labels) = card (set labels)"
  by (simp_all add: label_classes_sorted_list)

lemma map_of_zip_upt:
  "distinct xs \<Longrightarrow> map_of (zip xs [0 ..< length xs]) l = Some i \<longleftrightarrow> i < length xs \<and> xs ! i = l"
proof
  assume d: "distinct xs" and m: "map_of (zip xs [0 ..< length xs]) l = Some i"
  from m have "(l, i) \<in> set (zip xs [0 ..< length xs])"
    by (rule map_of_SomeD)
  then show "i < length xs \<and> xs ! i = l"
    by (auto simp: in_set_zip)
next
  assume d: "distinct xs" and "i < length xs \<and> xs ! i = l"
  then show "map_of (zip xs [0 ..< length xs]) l = Some i"
    using map_of_zip_nth [of xs "[0 ..< length xs]" i] by auto
qed

lemma label_ids_iff:
  "label_ids labels l = Some i \<longleftrightarrow> i < card (set labels) \<and> sorted_list_of_set (set labels) ! i = l"
proof -
  have "label_ids labels l = Some i
          \<longleftrightarrow> i < length (label_classes labels) \<and> label_classes labels ! i = l"
    unfolding label_ids_def by (rule map_of_zip_upt) (rule label_classes_props(2))
  then show ?thesis
    by (simp only: label_classes_props(4)) (simp only: label_classes_sorted_list)
qed

lemma label_ids_dom: "dom (label_ids labels) = set labels"
  by (simp add: label_ids_def label_classes_props(3))

lemma label_ids_ran: "ran (label_ids labels) = {0 ..< card (set labels)}"
proof -
  have "ran (label_ids labels) = set [0 ..< length (label_classes labels)]"
    unfolding label_ids_def by (rule ran_map_of_zip) (simp_all add: label_classes_props(2))
  then show ?thesis by (simp add: label_classes_props(4))
qed

lemma label_ids_mono:
  assumes "label_ids labels l = Some i" and "label_ids labels l' = Some i'"
  shows "l < l' \<longleftrightarrow> i < i'"
proof -
  define cs where "cs = sorted_list_of_set (set labels)"
  have len: "length cs = card (set labels)" by (simp add: cs_def)
  from assms have i: "i < length cs" "cs ! i = l" and i': "i' < length cs" "cs ! i' = l'"
    by (simp_all add: label_ids_iff cs_def)
  have s: "sorted cs" and d: "distinct cs" by (simp_all add: cs_def)
  show ?thesis
  proof
    assume less: "l < l'"
    show "i < i'"
    proof (rule ccontr)
      assume "\<not> i < i'"
      then have "i' \<le> i" by simp
      from sorted_nth_mono [OF s this i(1)] have "l' \<le> l" by (simp add: i i')
      with less show False by simp
    qed
  next
    assume less: "i < i'"
    then have "i \<le> i'" by simp
    from sorted_nth_mono [OF s this i'(1)] have "l \<le> l'" by (simp add: i i')
    moreover from less i i' have "l \<noteq> l'"
      using nth_eq_iff_index_eq [OF d i(1) i'(1)] by auto
    ultimately show "l < l'" by simp
  qed
qed

lemma label_ids_set:
  "set labels = set labels' \<Longrightarrow> label_ids labels = label_ids labels'"
  by (simp add: label_ids_def label_classes_sorted_list)

lemma label_example:
  "label_classes [''sad'', ''happy'', ''sad'', ''suicidal''] = [''happy'', ''sad'', ''suicidal'']"
  by code_simp

lemma label_example_ids:
  "map (label_ids [''sad'', ''happy'', ''sad'', ''suicidal'']) [''happy'', ''sad'', ''suicidal'']
     = [Some 0, Some 1, Some 2]"
  by (simp add: label_ids_def label_example upt_rec)

text \<open>
  Claim C3. The classes are the distinct labels in sorted order; the ids are defined
  exactly on the labels, are the numbers \<open>0, \<dots>, k - 1\<close> for \<open>k\<close> distinct labels, give each
  label its position in the sorted order (so a smaller label has a smaller id), and depend
  only on the set of labels, not on the order or the number of occurrences of the rows.
  The labels sad, happy, sad, suicidal give happy 0, sad 1, suicidal 2.
\<close>

theorem label_vocabulary:
  "label_classes labels = sorted_list_of_set (set labels)
   \<and> dom (label_ids labels) = set labels
   \<and> ran (label_ids labels) = {0 ..< card (set labels)}
   \<and> (label_ids labels l = Some i
        \<longleftrightarrow> i < card (set labels) \<and> sorted_list_of_set (set labels) ! i = l)
   \<and> (label_ids labels l = Some i \<and> label_ids labels l' = Some i' \<longrightarrow> (l < l' \<longleftrightarrow> i < i'))
   \<and> (set labels' = set labels \<longrightarrow> label_ids labels' = label_ids labels)
   \<and> map (label_ids [''sad'', ''happy'', ''sad'', ''suicidal'']) [''happy'', ''sad'', ''suicidal'']
        = [Some 0, Some 1, Some 2]"
  using label_ids_mono [of labels l i l' i'] label_ids_set [of labels' labels]
  by (simp only: label_classes_sorted_list label_ids_dom label_ids_ran label_ids_iff
      label_example_ids) blast

text \<open>
  The hypothesis inside C3 at a reordering of the example with other multiplicities.
\<close>

theorem label_vocabulary_witness:
  "set [''suicidal'', ''sad'', ''happy'', ''happy''] = set [''sad'', ''happy'', ''sad'', ''suicidal'']
   \<and> map (label_ids [''suicidal'', ''sad'', ''happy'', ''happy'']) [''happy'', ''sad'', ''suicidal'']
        = [Some 0, Some 1, Some 2]"
proof -
  have h: "set [''suicidal'', ''sad'', ''happy'', ''happy''] = set [''sad'', ''happy'', ''sad'', ''suicidal'']"
    by auto
  have "label_ids [''suicidal'', ''sad'', ''happy'', ''happy'']
          = label_ids [''sad'', ''happy'', ''sad'', ''suicidal'']"
    using label_vocabulary [of "[''sad'', ''happy'', ''sad'', ''suicidal'']" "[]" 0 "[]" 0
        "[''suicidal'', ''sad'', ''happy'', ''happy'']"] h
    by blast
  moreover have "map (label_ids [''sad'', ''happy'', ''sad'', ''suicidal'']) [''happy'', ''sad'', ''suicidal'']
        = [Some 0, Some 1, Some 2]"
    using label_vocabulary [of "[]" "[]" 0 "[]" 0 "[]"] by blast
  ultimately show ?thesis using h by simp
qed

section \<open>Properties of the Learning-Rate Scheduler\<close>

lemma schedule_warmup_value:
  "0 < spe \<Longrightarrow> step < warmup_steps spe \<Longrightarrow> schedule spe step = real step / real (2 * spe)"
  by (simp add: schedule_def lr_multiplier_def warmup_steps_def mult.commute)

lemma schedule_decay_value:
  "0 < spe \<Longrightarrow> warmup_steps spe \<le> step \<Longrightarrow> step \<le> total_steps spe \<Longrightarrow>
     schedule spe step = real (10 * spe - step) / real (8 * spe)"
  by (simp add: schedule_def lr_multiplier_def warmup_steps_def total_steps_def NUM_EPOCHS_def
      mult.commute)

lemma schedule_at_zero: "0 < spe \<Longrightarrow> schedule spe 0 = 0"
  by (simp add: schedule_warmup_value warmup_steps_def)

lemma schedule_at_warmup: "0 < spe \<Longrightarrow> schedule spe (warmup_steps spe) = 1"
proof -
  assume p: "0 < spe"
  have "warmup_steps spe \<le> total_steps spe"
    by (simp add: warmup_steps_def total_steps_def NUM_EPOCHS_def)
  from schedule_decay_value [OF p le_refl this] p show ?thesis
    by (simp add: warmup_steps_def)
qed

lemma schedule_at_total: "0 < spe \<Longrightarrow> schedule spe (total_steps spe) = 0"
proof -
  assume p: "0 < spe"
  have "warmup_steps spe \<le> total_steps spe"
    by (simp add: warmup_steps_def total_steps_def NUM_EPOCHS_def)
  from schedule_decay_value [OF p this le_refl] show ?thesis
    by (simp add: total_steps_def NUM_EPOCHS_def)
qed

lemma schedule_increasing:
  assumes p: "0 < spe" and st: "s < t" and tw: "t \<le> warmup_steps spe"
  shows "schedule spe s < schedule spe t"
proof -
  from st tw have s: "schedule spe s = real s / real (2 * spe)"
    using schedule_warmup_value [OF p, of s] by simp
  have t: "schedule spe t = real t / real (2 * spe)"
  proof (cases "t < warmup_steps spe")
    case True
    then show ?thesis by (rule schedule_warmup_value [OF p])
  next
    case False
    with tw have "t = warmup_steps spe" by simp
    with p show ?thesis by (simp add: schedule_at_warmup) (simp add: warmup_steps_def)
  qed
  from p st show ?thesis
    unfolding s t by (simp add: divide_strict_right_mono)
qed

lemma schedule_decreasing:
  assumes p: "0 < spe" and ws: "warmup_steps spe \<le> s" and st: "s < t" and tt: "t \<le> total_steps spe"
  shows "schedule spe t < schedule spe s"
proof -
  from ws st tt have s: "schedule spe s = real (10 * spe - s) / real (8 * spe)"
    using schedule_decay_value [OF p, of s] by simp
  from ws st tt have t: "schedule spe t = real (10 * spe - t) / real (8 * spe)"
    using schedule_decay_value [OF p, of t] by simp
  from tt have "t \<le> 10 * spe" by (simp add: total_steps_def NUM_EPOCHS_def)
  with st have "real (10 * spe - t) < real (10 * spe - s)" by simp
  with p show ?thesis
    unfolding s t by (simp add: divide_strict_right_mono)
qed

lemma train_epoch_calls:
  "train_epoch data_loader calls
     = calls @ concat (replicate (length data_loader) [Zero_grad, Optimizer_step, Scheduler_step])"
  unfolding train_epoch_def
  by (induction data_loader arbitrary: calls) (simp_all add: train_batch_def)

lemma fold_train_epoch:
  "fold (\<lambda>epoch. train_epoch train_loader) es calls
     = calls @ concat (replicate (length es * length train_loader)
                         [Zero_grad, Optimizer_step, Scheduler_step])"
  by (induction es arbitrary: calls) (simp_all add: train_epoch_calls replicate_add)

lemma training_calls_eq:
  "training_calls num_epochs train_loader
     = concat (replicate (num_epochs * length train_loader)
                 [Zero_grad, Optimizer_step, Scheduler_step])"
  by (simp add: training_calls_def fold_train_epoch)

lemma count_calls:
  "count_list (concat (replicate n [Zero_grad, Optimizer_step, Scheduler_step])) Optimizer_step = n"
  "count_list (concat (replicate n [Zero_grad, Optimizer_step, Scheduler_step])) Scheduler_step = n"
  by (induction n) simp_all

text \<open>
  Claim C6. With E = 10 epochs the warmup has \<open>2 * steps_per_epoch\<close> steps and the
  training \<open>steps_per_epoch * 10\<close> (200 and 1000 for 100 steps per epoch). For a loader
  with at least one batch the multiplier is 0 at step 0, 1 at the end of the warmup and 0
  at the last step, strictly increasing up to the end of the warmup and strictly
  decreasing from there to the last step. In \<^verbatim>\<open>train_epoch\<close> every batch makes one
  optimizer step followed by one scheduler step, so a training of 10 epochs makes
  \<open>total_steps\<close> steps of each.
\<close>

theorem lr_schedule:
  "0 < steps_per_epoch \<Longrightarrow>
   warmup_steps steps_per_epoch = 2 * steps_per_epoch
   \<and> total_steps steps_per_epoch = steps_per_epoch * 10
   \<and> warmup_steps 100 = 200 \<and> total_steps 100 = 1000
   \<and> schedule steps_per_epoch 0 = 0
   \<and> schedule steps_per_epoch (warmup_steps steps_per_epoch) = 1
   \<and> schedule steps_per_epoch (total_steps steps_per_epoch) = 0
   \<and> (s < t \<and> t \<le> warmup_steps steps_per_epoch \<longrightarrow>
        schedule steps_per_epoch s < schedule steps_per_epoch t)
   \<and> (warmup_steps steps_per_epoch \<le> s \<and> s < t \<and> t \<le> total_steps steps_per_epoch \<longrightarrow>
        schedule steps_per_epoch t < schedule steps_per_epoch s)
   \<and> train_epoch train_loader calls
       = calls @ concat (replicate (length train_loader) [Zero_grad, Optimizer_step, Scheduler_step])
   \<and> training_calls NUM_EPOCHS train_loader
       = concat (replicate (total_steps (length train_loader))
                   [Zero_grad, Optimizer_step, Scheduler_step])
   \<and> count_list (training_calls NUM_EPOCHS train_loader) Optimizer_step
       = total_steps (length train_loader)
   \<and> count_list (training_calls NUM_EPOCHS train_loader) Scheduler_step
       = total_steps (length train_loader)"
proof -
  assume p: "0 < steps_per_epoch"
  have c: "training_calls NUM_EPOCHS train_loader
       = concat (replicate (total_steps (length train_loader))
                   [Zero_grad, Optimizer_step, Scheduler_step])"
    by (simp add: training_calls_eq total_steps_def mult.commute)
  show ?thesis
  proof (intro conjI impI)
    show "warmup_steps steps_per_epoch = 2 * steps_per_epoch"
      by (simp add: warmup_steps_def)
    show "total_steps steps_per_epoch = steps_per_epoch * 10"
      by (simp add: total_steps_def NUM_EPOCHS_def)
    show "warmup_steps 100 = 200" by (simp add: warmup_steps_def)
    show "total_steps 100 = 1000" by (simp add: total_steps_def NUM_EPOCHS_def)
    show "schedule steps_per_epoch 0 = 0" using p by (rule schedule_at_zero)
    show "schedule steps_per_epoch (warmup_steps steps_per_epoch) = 1"
      using p by (rule schedule_at_warmup)
    show "schedule steps_per_epoch (total_steps steps_per_epoch) = 0"
      using p by (rule schedule_at_total)
    show "schedule steps_per_epoch s < schedule steps_per_epoch t"
      if "s < t \<and> t \<le> warmup_steps steps_per_epoch"
      using that schedule_increasing [OF p, of s t] by simp
    show "schedule steps_per_epoch t < schedule steps_per_epoch s"
      if "warmup_steps steps_per_epoch \<le> s \<and> s < t \<and> t \<le> total_steps steps_per_epoch"
      using that schedule_decreasing [OF p, of s t] by simp
    show "train_epoch train_loader calls
       = calls @ concat (replicate (length train_loader) [Zero_grad, Optimizer_step, Scheduler_step])"
      by (rule train_epoch_calls)
    show "training_calls NUM_EPOCHS train_loader
       = concat (replicate (total_steps (length train_loader))
                   [Zero_grad, Optimizer_step, Scheduler_step])"
      by (rule c)
    show "count_list (training_calls NUM_EPOCHS train_loader) Optimizer_step
       = total_steps (length train_loader)"
      by (simp only: c count_calls)
    show "count_list (training_calls NUM_EPOCHS train_loader) Scheduler_step
       = total_steps (length train_loader)"
      by (simp only: c count_calls)
  qed
qed

text \<open>
  The hypothesis of C6 at 100 steps per epoch.
\<close>

theorem lr_schedule_witness:
  "(0::nat) < 100
   \<and> schedule 100 0 = 0 \<and> schedule 100 200 = 1 \<and> schedule 100 1000 = 0
   \<and> schedule 100 100 < schedule 100 200 \<and> schedule 100 1000 < schedule 100 600"
proof -
  have p: "(0::nat) < 100" by simp
  note t = lr_schedule [OF p, of _ _ "[]::nat list" "[]"]
  have w: "warmup_steps 100 = 200" and tt: "total_steps 100 = 1000"
    using t [of 0 0] by simp_all
  have "schedule 100 0 = 0" using t [of 0 0] by simp
  moreover have "schedule 100 200 = 1" using t [of 0 0] by (simp only: w) simp
  moreover have "schedule 100 1000 = 0" using t [of 0 0] by (simp only: tt) simp
  moreover have "schedule 100 100 < schedule 100 200" using t [of 100 200] by (simp only: w) simp
  moreover have "schedule 100 1000 < schedule 100 600" using t [of 600 1000] by (simp only: w tt) simp
  ultimately show ?thesis by simp
qed

section \<open>Properties of the Fine-Tuning Policy\<close>

lemma contains_sublist: "contains pat s \<longleftrightarrow> sublist pat s"
  by (induction s) (simp_all add: sublist_Cons_right)

lemma layer_paths:
  "layer_path 0 = ''bert.encoder.layer.0.''" "layer_path 1 = ''bert.encoder.layer.1.''"
  "layer_path 2 = ''bert.encoder.layer.2.''" "layer_path 3 = ''bert.encoder.layer.3.''"
  "layer_path 4 = ''bert.encoder.layer.4.''" "layer_path 5 = ''bert.encoder.layer.5.''"
  "layer_path 6 = ''bert.encoder.layer.6.''" "layer_path 7 = ''bert.encoder.layer.7.''"
  "layer_path 8 = ''bert.encoder.layer.8.''" "layer_path 9 = ''bert.encoder.layer.9.''"
  "layer_path 10 = ''bert.encoder.layer.10.''" "layer_path 11 = ''bert.encoder.layer.11.''"
  "layer_path (Suc 0) = ''bert.encoder.layer.1.''"
  by code_simp+

lemma straddle_classifier:
  assumes "''classifier'' = xs1 @ xs2" "xs1 \<noteq> []" "last xs1 = CHR ''.''"
  shows False
proof -
  from assms(1) have "prefix xs1 ''classifier''" by (simp add: prefix_def)
  then have "xs1 \<in> set (prefixes ''classifier'')" by (simp only: in_set_prefixes)
  with assms(2,3) show False by auto
qed

lemma straddle_layer:
  assumes "pat = xs1 @ xs2" "pat = ''layer.11'' \<or> pat = ''layer.10''" "xs1 \<noteq> []"
    "last xs1 = CHR ''.''"
  shows "xs1 = ''layer.''"
proof -
  from assms(1) have p: "prefix xs1 pat" by (simp add: prefix_def)
  from assms(2) show ?thesis
  proof
    assume "pat = ''layer.11''"
    with p have "xs1 \<in> set (prefixes ''layer.11'')" by (simp only: in_set_prefixes)
    with assms(3,4) show ?thesis by (auto simp del: in_set_prefixes)
  next
    assume "pat = ''layer.10''"
    with p have "xs1 \<in> set (prefixes ''layer.10'')" by (simp only: in_set_prefixes)
    with assms(3,4) show ?thesis by (auto simp del: in_set_prefixes)
  qed
qed

lemma contains_path:
  assumes P: "P \<noteq> []" "last P = CHR ''.''" "\<not> suffix ''layer.'' P"
    and pat: "pat = ''classifier'' \<or> pat = ''layer.11'' \<or> pat = ''layer.10''"
  shows "contains pat (P @ n) \<longleftrightarrow> contains pat P \<or> contains pat n"
proof -
  have "sublist pat P \<or> sublist pat n"
    if s: "pat = xs1 @ xs2" "suffix xs1 P" "prefix xs2 n" for xs1 xs2
  proof (cases "xs1 = []")
    case True
    with s show ?thesis by auto
  next
    case False
    from s(2) obtain zs where "P = zs @ xs1" by (auto simp: suffix_def)
    with False P(2) have l: "last xs1 = CHR ''.''" by simp
    from pat show ?thesis
    proof
      assume "pat = ''classifier''"
      with s(1) False l straddle_classifier [of xs1 xs2] show ?thesis by simp
    next
      assume "pat = ''layer.11'' \<or> pat = ''layer.10''"
      from straddle_layer [OF s(1) this False l] s(2) P(3) show ?thesis by simp
    qed
  qed
  then show ?thesis
    unfolding contains_sublist sublist_append by blast
qed

lemma filter_qualify:
  assumes P: "P \<noteq> [] \<and> last P = CHR ''.'' \<and> \<not> suffix ''layer.'' P"
    and ps: "\<forall>p \<in> set ps. plain_name (pname p)"
    and pat: "pat = ''classifier'' \<or> pat = ''layer.11'' \<or> pat = ''layer.10''"
  shows "filter (\<lambda>np. contains pat (fst np)) (map (qualify P) ps)
           = (if contains pat P then map (qualify P) ps else [])"
proof -
  have "contains pat (fst (qualify P p)) = contains pat P" if "p \<in> set ps" for p
  proof -
    from ps that pat have "\<not> contains pat (pname p)" by (auto simp: plain_name_def)
    with contains_path [of P pat "pname p"] P pat show ?thesis by (simp add: qualify_def)
  qed
  then have "filter (\<lambda>np. contains pat (fst np)) (map (qualify P) ps)
          = map (qualify P) (filter (\<lambda>p. contains pat P) ps)"
    by (simp add: filter_map comp_def cong: filter_cong)
  then show ?thesis by simp
qed

lemma length_12:
  "length xs = 12 \<Longrightarrow>
     xs = [xs ! 0, xs ! 1, xs ! 2, xs ! 3, xs ! 4, xs ! 5, xs ! 6, xs ! 7, xs ! 8, xs ! 9,
           xs ! 10, xs ! 11]"
  by (rule nth_equalityI) (auto simp: nth_Cons' less_Suc_eq eval_nat_numeral)

lemma enumerate_12:
  "enumerate 0 [a0, a1, a2, a3, a4, a5, a6, a7, a8, a9, a10, a11]
     = [(0, a0), (1, a1), (2, a2), (3, a3), (4, a4), (5, a5), (6, a6), (7, a7), (8, a8),
        (9, a9), (10, a10), (11, a11)]"
  by (simp add: eval_nat_numeral)

lemma twelve_layers:
  assumes "length xs = 12"
  obtains l0 l1 l2 l3 l4 l5 l6 l7 l8 l9 l10 l11
  where "xs = [l0, l1, l2, l3, l4, l5, l6, l7, l8, l9, l10, l11]"
  using length_12 [OF assms] by blast

lemma named_parameters_12:
  assumes "encoder_layer m = [l0, l1, l2, l3, l4, l5, l6, l7, l8, l9, l10, l11]"
  shows "named_parameters m =
       map (qualify ''bert.embeddings.'') (embeddings m)
       @ map (qualify ''bert.encoder.layer.0.'') l0 @ map (qualify ''bert.encoder.layer.1.'') l1 @ map (qualify ''bert.encoder.layer.2.'') l2
       @ map (qualify ''bert.encoder.layer.3.'') l3 @ map (qualify ''bert.encoder.layer.4.'') l4 @ map (qualify ''bert.encoder.layer.5.'') l5
       @ map (qualify ''bert.encoder.layer.6.'') l6 @ map (qualify ''bert.encoder.layer.7.'') l7 @ map (qualify ''bert.encoder.layer.8.'') l8
       @ map (qualify ''bert.encoder.layer.9.'') l9 @ map (qualify ''bert.encoder.layer.10.'') l10
       @ map (qualify ''bert.encoder.layer.11.'') l11
       @ map (qualify ''bert.pooler.'') (pooler m) @ map (qualify ''classifier.'') (classifier m)"
  unfolding named_parameters_def assms
  by (simp only: enumerate_12) (simp add: named_layer_def layer_paths)

lemma apply_freezing_12:
  assumes "encoder_layer m = [l0, l1, l2, l3, l4, l5, l6, l7, l8, l9, l10, l11]"
  shows "encoder_layer (apply_freezing m)
           = [map freeze l0, map freeze l1, map freeze l2, map freeze l3, map freeze l4,
              map freeze l5, map freeze l6, map freeze l7, map freeze l8, map freeze l9,
              l10, l11]"
    and "embeddings (apply_freezing m) = map freeze (embeddings m)"
    and "pooler (apply_freezing m) = pooler m"
    and "classifier (apply_freezing m) = classifier m"
  unfolding apply_freezing_def assms
  by (simp only: enumerate_12, simp add: freeze_layer_def)+

lemma select_12:
  assumes e: "encoder_layer m = [l0, l1, l2, l3, l4, l5, l6, l7, l8, l9, l10, l11]"
    and plain: "\<forall>p \<in> set (all_params m). plain_name (pname p)"
  shows "select ''classifier'' m = map (qualify ''classifier.'') (classifier m)"
    and "select ''layer.11'' m = map (qualify ''bert.encoder.layer.11.'') l11"
    and "select ''layer.10'' m = map (qualify ''bert.encoder.layer.10.'') l10"
  using plain
  unfolding select_def named_parameters_12 [OF e] all_params_def e
  by (simp_all add: filter_qualify suffix_to_prefix)

lemma pname_freeze: "pname (freeze p) = pname p"
  by (simp add: freeze_def)

lemma requires_grad_freeze: "\<not> requires_grad (freeze p)"
  by (simp add: freeze_def)

lemma not_selected:
  assumes P: "P \<noteq> [] \<and> last P = CHR ''.'' \<and> \<not> suffix ''layer.'' P"
    and pp: "plain_name P"
    and ps: "\<forall>p \<in> set ps. plain_name (pname p)"
    and np: "np \<in> set (map (qualify P) ps)"
  shows "plain_name (fst np)"
proof -
  from np obtain p where p: "p \<in> set ps" and n: "fst np = P @ pname p"
    by (auto simp: qualify_def)
  from ps p have "plain_name (pname p)" by simp
  with pp show ?thesis
    unfolding n plain_name_def
    using contains_path [of P "''classifier''" "pname p"]
      contains_path [of P "''layer.11''" "pname p"]
      contains_path [of P "''layer.10''" "pname p"] P
    by simp
qed

lemma group_member_selected:
  assumes "np \<in> set (optimizer_params (optimizer_grouped_parameters m))"
  shows "\<not> plain_name (fst np)"
  using assms
  by (auto simp: optimizer_params_def optimizer_grouped_parameters_def select_def plain_name_def)

lemma as_loaded_freezing:
  assumes a: "as_loaded m" and e: "encoder_layer m = [l0, l1, l2, l3, l4, l5, l6, l7, l8, l9, l10, l11]"
  shows "\<forall>p \<in> set (all_params (apply_freezing m)). plain_name (pname p)"
    and "\<forall>p \<in> set (l10 @ l11 @ pooler m @ classifier m). requires_grad p"
proof -
  from a have all: "\<forall>p \<in> set (all_params m). requires_grad p \<and> plain_name (pname p)"
    by (simp add: as_loaded_def list_all_iff)
  then show "\<forall>p \<in> set (l10 @ l11 @ pooler m @ classifier m). requires_grad p"
    by (simp add: all_params_def e ball_Un)
  from all show "\<forall>p \<in> set (all_params (apply_freezing m)). plain_name (pname p)"
    unfolding all_params_def apply_freezing_12 [OF e] e
    by (simp add: ball_Un pname_freeze)
qed

lemma frozen_plain:
  assumes e: "encoder_layer m = [l0, l1, l2, l3, l4, l5, l6, l7, l8, l9, l10, l11]"
    and plain: "\<forall>p \<in> set (all_params m). plain_name (pname p)"
    and tr: "\<forall>p \<in> set (l10 @ l11 @ pooler m @ classifier m). requires_grad p"
    and np: "np \<in> set (named_parameters m)" "\<not> requires_grad (snd np)"
  shows "plain_name (fst np)"
proof -
  from tr np(2) have "np \<notin> set (map (qualify P) l10) \<and> np \<notin> set (map (qualify P) l11)
      \<and> np \<notin> set (map (qualify P) (pooler m)) \<and> np \<notin> set (map (qualify P) (classifier m))"
    for P by (auto simp: qualify_def)
  with np(1) consider
      "np \<in> set (map (qualify ''bert.embeddings.'') (embeddings m))"
    | "np \<in> set (map (qualify ''bert.encoder.layer.0.'') l0)"
    | "np \<in> set (map (qualify ''bert.encoder.layer.1.'') l1)"
    | "np \<in> set (map (qualify ''bert.encoder.layer.2.'') l2)"
    | "np \<in> set (map (qualify ''bert.encoder.layer.3.'') l3)"
    | "np \<in> set (map (qualify ''bert.encoder.layer.4.'') l4)"
    | "np \<in> set (map (qualify ''bert.encoder.layer.5.'') l5)"
    | "np \<in> set (map (qualify ''bert.encoder.layer.6.'') l6)"
    | "np \<in> set (map (qualify ''bert.encoder.layer.7.'') l7)"
    | "np \<in> set (map (qualify ''bert.encoder.layer.8.'') l8)"
    | "np \<in> set (map (qualify ''bert.encoder.layer.9.'') l9)"
    unfolding named_parameters_12 [OF e] set_append Un_iff by blast
  moreover from plain have
    "\<forall>p \<in> set (embeddings m). plain_name (pname p)"
    "\<forall>p \<in> set l0. plain_name (pname p)" "\<forall>p \<in> set l1. plain_name (pname p)"
    "\<forall>p \<in> set l2. plain_name (pname p)" "\<forall>p \<in> set l3. plain_name (pname p)"
    "\<forall>p \<in> set l4. plain_name (pname p)" "\<forall>p \<in> set l5. plain_name (pname p)"
    "\<forall>p \<in> set l6. plain_name (pname p)" "\<forall>p \<in> set l7. plain_name (pname p)"
    "\<forall>p \<in> set l8. plain_name (pname p)" "\<forall>p \<in> set l9. plain_name (pname p)"
    by (simp_all add: all_params_def e ball_Un)
  ultimately show ?thesis
    by cases (erule not_selected [rotated 3], simp add: suffix_to_prefix,
      simp add: plain_name_def, assumption)+
qed

lemma bert_base_as_loaded: "as_loaded bert_base_uncased"
  by code_simp

text \<open>
  Claim C5. For a model loaded with 12 blocks: after the freezing loops there are still
  12 blocks with the same parameters by name; every parameter of the embeddings and of
  blocks 0 to 9 has \<^verbatim>\<open>requires_grad\<close> false; every parameter of blocks 10 and 11 and of
  the classification head has it true. The optimizer gets exactly three groups: the
  classification head with learning rate 2e-4, block 11 with 1e-4 and block 10 with
  5e-5, each with weight decay 0.01. No frozen parameter has a name that occurs in a
  group.
\<close>

theorem fine_tuning_policy_groups:
  "as_loaded m \<Longrightarrow> fine_tuning_policy m = (m', groups) \<Longrightarrow>
   length (encoder_layer m') = 12
   \<and> map pname (all_params m') = map pname (all_params m)
   \<and> (\<forall>p \<in> set (embeddings m'). \<not> requires_grad p)
   \<and> (\<forall>i < 10. \<forall>p \<in> set (encoder_layer m' ! i). \<not> requires_grad p)
   \<and> (\<forall>p \<in> set (encoder_layer m' ! 10). requires_grad p)
   \<and> (\<forall>p \<in> set (encoder_layer m' ! 11). requires_grad p)
   \<and> (\<forall>p \<in> set (classifier m'). requires_grad p)
   \<and> groups =
       [\<lparr>params = map (qualify ''classifier.'') (classifier m'),
          lr = 2 / 10 ^ 4, weight_decay = 1 / 100\<rparr>,
        \<lparr>params = map (qualify ''bert.encoder.layer.11.'') (encoder_layer m' ! 11),
          lr = 1 / 10 ^ 4, weight_decay = 1 / 100\<rparr>,
        \<lparr>params = map (qualify ''bert.encoder.layer.10.'') (encoder_layer m' ! 10),
          lr = 5 / 10 ^ 5, weight_decay = 1 / 100\<rparr>]
   \<and> (\<forall>np \<in> set (named_parameters m').
         \<not> requires_grad (snd np) \<longrightarrow> fst np \<notin> fst ` set (optimizer_params groups))"
proof -
  assume a: "as_loaded m" and f: "fine_tuning_policy m = (m', groups)"
  from f have m': "m' = apply_freezing m" and g: "groups = optimizer_grouped_parameters m'"
    by (auto simp: fine_tuning_policy_def Let_def)
  from a have "length (encoder_layer m) = 12" by (simp add: as_loaded_def)
  then obtain l0 l1 l2 l3 l4 l5 l6 l7 l8 l9 l10 l11
    where e: "encoder_layer m = [l0, l1, l2, l3, l4, l5, l6, l7, l8, l9, l10, l11]"
    by (rule twelve_layers)
  note fr = apply_freezing_12 [OF e, folded m']
  note e' = fr(1)
  have plain': "\<forall>p \<in> set (all_params m'). plain_name (pname p)"
    unfolding m' using a e by (rule as_loaded_freezing(1))
  have tr: "\<forall>p \<in> set (l10 @ l11 @ pooler m @ classifier m). requires_grad p"
    using a e by (rule as_loaded_freezing(2))
  then have tr': "\<forall>p \<in> set (l10 @ l11 @ pooler m' @ classifier m'). requires_grad p"
    by (simp only: fr)
  have 1: "length (encoder_layer m') = 12" by (simp add: e')
  have 2: "map pname (all_params m') = map pname (all_params m)"
    by (simp add: all_params_def fr e pname_freeze comp_def)
  have 3: "\<forall>p \<in> set (embeddings m'). \<not> requires_grad p"
    by (simp add: fr requires_grad_freeze)
  have 4: "\<forall>i < 10. \<forall>p \<in> set (encoder_layer m' ! i). \<not> requires_grad p"
  proof (intro allI impI)
    fix i :: nat
    assume "i < 10"
    then have "i \<in> set [0, 1, 2, 3, 4, 5, 6, 7, 8, 9]" by auto
    then show "\<forall>p \<in> set (encoder_layer m' ! i). \<not> requires_grad p"
      by (auto simp: e' requires_grad_freeze)
  qed
  have 5: "\<forall>p \<in> set (encoder_layer m' ! 10). requires_grad p"
    using tr by (simp add: e' ball_Un)
  have 6: "\<forall>p \<in> set (encoder_layer m' ! 11). requires_grad p"
    using tr by (simp add: e' ball_Un)
  have 7: "\<forall>p \<in> set (classifier m'). requires_grad p"
    using tr by (simp add: fr ball_Un)
  have 8: "groups =
       [\<lparr>params = map (qualify ''classifier.'') (classifier m'),
          lr = 2 / 10 ^ 4, weight_decay = 1 / 100\<rparr>,
        \<lparr>params = map (qualify ''bert.encoder.layer.11.'') (encoder_layer m' ! 11),
          lr = 1 / 10 ^ 4, weight_decay = 1 / 100\<rparr>,
        \<lparr>params = map (qualify ''bert.encoder.layer.10.'') (encoder_layer m' ! 10),
          lr = 5 / 10 ^ 5, weight_decay = 1 / 100\<rparr>]"
    unfolding g optimizer_grouped_parameters_def select_12 [OF e' plain']
    by (simp add: e')
  have 9: "\<forall>np \<in> set (named_parameters m').
         \<not> requires_grad (snd np) \<longrightarrow> fst np \<notin> fst ` set (optimizer_params groups)"
  proof (intro ballI impI notI)
    fix np
    assume np: "np \<in> set (named_parameters m')" "\<not> requires_grad (snd np)"
      and "fst np \<in> fst ` set (optimizer_params groups)"
    then obtain np' where "np' \<in> set (optimizer_params groups)" "fst np' = fst np"
      by auto
    with group_member_selected [of np' m'] have "\<not> plain_name (fst np)"
      by (simp add: g)
    moreover from e' plain' tr' np have "plain_name (fst np)" by (rule frozen_plain)
    ultimately show False by simp
  qed
  from 1 2 3 4 5 6 7 8 9 show ?thesis by blast
qed

text \<open>
  The hypotheses of C5 at the parameters of \<^verbatim>\<open>bert-base-uncased\<close>.
\<close>

theorem fine_tuning_policy_groups_witness:
  "as_loaded bert_base_uncased
   \<and> map (\<lambda>g. (map fst (params g), lr g, weight_decay g))
         (snd (fine_tuning_policy bert_base_uncased))
       = [([''classifier.weight'', ''classifier.bias''], 2 / 10 ^ 4, 1 / 100),
          (map (\<lambda>n. ''bert.encoder.layer.11.'' @ n) bert_layer_names, 1 / 10 ^ 4, 1 / 100),
          (map (\<lambda>n. ''bert.encoder.layer.10.'' @ n) bert_layer_names, 5 / 10 ^ 5, 1 / 100)]
   \<and> map requires_grad (embeddings (fst (fine_tuning_policy bert_base_uncased)))
       = [False, False, False, False, False]"
proof -
  define m' where "m' = fst (fine_tuning_policy bert_base_uncased)"
  define groups where "groups = snd (fine_tuning_policy bert_base_uncased)"
  have f: "fine_tuning_policy bert_base_uncased = (m', groups)"
    by (simp add: m'_def groups_def)
  note t = fine_tuning_policy_groups [OF bert_base_as_loaded f]
  have m: "m' = apply_freezing bert_base_uncased"
    by (simp add: m'_def fine_tuning_policy_def Let_def)
  have c: "classifier m' = map trainable [''weight'', ''bias'']"
    by (simp add: m apply_freezing_def bert_base_uncased_def)
  have l: "encoder_layer m' ! 10 = map trainable bert_layer_names"
    "encoder_layer m' ! 11 = map trainable bert_layer_names"
    by (simp_all add: m apply_freezing_def bert_base_uncased_def freeze_layer_def
        eval_nat_numeral)
  have e: "map pname (embeddings m') = map pname (embeddings bert_base_uncased)"
    by (simp add: m apply_freezing_def pname_freeze comp_def)
  from t have g: "groups =
       [\<lparr>params = map (qualify ''classifier.'') (classifier m'),
          lr = 2 / 10 ^ 4, weight_decay = 1 / 100\<rparr>,
        \<lparr>params = map (qualify ''bert.encoder.layer.11.'') (encoder_layer m' ! 11),
          lr = 1 / 10 ^ 4, weight_decay = 1 / 100\<rparr>,
        \<lparr>params = map (qualify ''bert.encoder.layer.10.'') (encoder_layer m' ! 10),
          lr = 5 / 10 ^ 5, weight_decay = 1 / 100\<rparr>]"
    by blast
  have 1: "map (\<lambda>g. (map fst (params g), lr g, weight_decay g)) groups
       = [([''classifier.weight'', ''classifier.bias''], 2 / 10 ^ 4, 1 / 100),
          (map (\<lambda>n. ''bert.encoder.layer.11.'' @ n) bert_layer_names, 1 / 10 ^ 4, 1 / 100),
          (map (\<lambda>n. ''bert.encoder.layer.10.'' @ n) bert_layer_names, 5 / 10 ^ 5, 1 / 100)]"
    unfolding g c l by (simp add: qualify_def trainable_def comp_def)
  from t have "\<forall>p \<in> set (embeddings m'). \<not> requires_grad p" by blast
  moreover have "length (embeddings m') = 5"
    by (simp add: m apply_freezing_def bert_base_uncased_def)
  ultimately have 2: "map requires_grad (embeddings m') = [False, False, False, False, False]"
    by (auto simp: length_Suc_conv eval_nat_numeral)
  from bert_base_as_loaded 1 2 show ?thesis
    by (simp only: m'_def groups_def)
qed

text \<open>
  Claim C10. The freezing loops leave the pooler as loaded. When its parameters are
  trainable and their own names contain none of the three strings, then after the policy
  every pooler parameter is a trainable named parameter of the model whose qualified name
  contains neither \<^verbatim>\<open>classifier\<close> nor \<^verbatim>\<open>layer.11\<close> nor \<^verbatim>\<open>layer.10\<close>, and it is
  in none of the optimizer's groups, so no optimizer step can change it.
\<close>

theorem pooler_outside_groups:
  "list_all (\<lambda>p. requires_grad p \<and> plain_name (pname p)) (pooler m) \<Longrightarrow>
   fine_tuning_policy m = (m', groups) \<Longrightarrow>
   pooler m' = pooler m
   \<and> (\<forall>p \<in> set (pooler m').
         requires_grad p
         \<and> qualify ''bert.pooler.'' p \<in> set (named_parameters m')
         \<and> \<not> contains ''classifier'' (fst (qualify ''bert.pooler.'' p))
         \<and> \<not> contains ''layer.11'' (fst (qualify ''bert.pooler.'' p))
         \<and> \<not> contains ''layer.10'' (fst (qualify ''bert.pooler.'' p))
         \<and> fst (qualify ''bert.pooler.'' p) \<notin> fst ` set (optimizer_params groups))"
proof -
  assume a: "list_all (\<lambda>p. requires_grad p \<and> plain_name (pname p)) (pooler m)"
    and f: "fine_tuning_policy m = (m', groups)"
  from f have m': "m' = apply_freezing m" and g: "groups = optimizer_grouped_parameters m'"
    by (auto simp: fine_tuning_policy_def Let_def)
  have p: "pooler m' = pooler m" by (simp add: m' apply_freezing_def)
  from a have plain: "\<forall>p \<in> set (pooler m). plain_name (pname p)"
    and tr: "\<forall>p \<in> set (pooler m). requires_grad p"
    by (simp_all add: list_all_iff)
  have "requires_grad q
         \<and> qualify ''bert.pooler.'' q \<in> set (named_parameters m')
         \<and> \<not> contains ''classifier'' (fst (qualify ''bert.pooler.'' q))
         \<and> \<not> contains ''layer.11'' (fst (qualify ''bert.pooler.'' q))
         \<and> \<not> contains ''layer.10'' (fst (qualify ''bert.pooler.'' q))
         \<and> fst (qualify ''bert.pooler.'' q) \<notin> fst ` set (optimizer_params groups)"
    if q: "q \<in> set (pooler m')" for q
  proof -
    from q p tr have 1: "requires_grad q" by simp
    from q have 2: "qualify ''bert.pooler.'' q \<in> set (named_parameters m')"
      by (simp add: named_parameters_def)
    from q p have "qualify ''bert.pooler.'' q \<in> set (map (qualify ''bert.pooler.'') (pooler m))"
      by simp
    with not_selected [of "''bert.pooler.''" "pooler m" "qualify ''bert.pooler.'' q"] plain
    have 3: "plain_name (fst (qualify ''bert.pooler.'' q))"
      by (simp add: suffix_to_prefix plain_name_def)
    have 4: "fst (qualify ''bert.pooler.'' q) \<notin> fst ` set (optimizer_params groups)"
    proof
      assume "fst (qualify ''bert.pooler.'' q) \<in> fst ` set (optimizer_params groups)"
      then obtain np where "np \<in> set (optimizer_params groups)"
        "fst np = fst (qualify ''bert.pooler.'' q)" by auto
      with group_member_selected [of np m'] 3 show False by (simp add: g)
    qed
    from 1 2 3 4 show ?thesis by (simp add: plain_name_def)
  qed
  with p show ?thesis by blast
qed

text \<open>
  The hypotheses of C10 at the pooler of \<^verbatim>\<open>bert-base-uncased\<close>, with parameters
  \<^verbatim>\<open>dense.weight\<close> and \<^verbatim>\<open>dense.bias\<close>.
\<close>

theorem pooler_outside_groups_witness:
  "pooler (fst (fine_tuning_policy bert_base_uncased))
     = [\<lparr>pname = ''dense.weight'', requires_grad = True\<rparr>,
        \<lparr>pname = ''dense.bias'', requires_grad = True\<rparr>]
   \<and> ''bert.pooler.dense.weight''
        \<notin> fst ` set (optimizer_params (snd (fine_tuning_policy bert_base_uncased)))
   \<and> ''bert.pooler.dense.bias''
        \<notin> fst ` set (optimizer_params (snd (fine_tuning_policy bert_base_uncased)))"
proof -
  define m' where "m' = fst (fine_tuning_policy bert_base_uncased)"
  define groups where "groups = snd (fine_tuning_policy bert_base_uncased)"
  have f: "fine_tuning_policy bert_base_uncased = (m', groups)"
    by (simp add: m'_def groups_def)
  have a: "list_all (\<lambda>p. requires_grad p \<and> plain_name (pname p)) (pooler bert_base_uncased)"
    by (simp add: bert_base_uncased_def trainable_def plain_name_def)
  note t = pooler_outside_groups [OF a f]
  have p: "pooler bert_base_uncased
     = [\<lparr>pname = ''dense.weight'', requires_grad = True\<rparr>,
        \<lparr>pname = ''dense.bias'', requires_grad = True\<rparr>]"
    by (simp add: bert_base_uncased_def trainable_def)
  from t have 1: "pooler m' = [\<lparr>pname = ''dense.weight'', requires_grad = True\<rparr>,
        \<lparr>pname = ''dense.bias'', requires_grad = True\<rparr>]"
    by (simp only: p)
  from t have "\<forall>p \<in> set (pooler m').
      fst (qualify ''bert.pooler.'' p) \<notin> fst ` set (optimizer_params groups)"
    by blast
  then have 2: "''bert.pooler.dense.weight'' \<notin> fst ` set (optimizer_params groups)"
    "''bert.pooler.dense.bias'' \<notin> fst ` set (optimizer_params groups)"
    unfolding 1 by (simp_all add: qualify_def)
  from 1 2 show ?thesis by (simp only: m'_def groups_def) simp
qed

section \<open>Properties of the serving endpoint\<close>


lemma threshold_default: "threshold parse_float None = Some 0.75"
  by (simp add: threshold_def)

lemma threshold_override: "threshold parse_float (Some s) = parse_float s"
  by (simp add: threshold_def)

lemma analyze_success:
  "model_loaded \<Longrightarrow> text \<noteq> [] \<Longrightarrow> predict text = Some (emotion, confidence) \<Longrightarrow>
   threshold parse_float env = Some t \<Longrightarrow>
   analyze_sentiment model_loaded parse_float env predict (Some text)
     = Analysis emotion confidence (emotion = ''suicidal'' \<and> confidence > t)"
  by (simp add: analyze_sentiment_def)

lemma analyze_flag:
  assumes "analyze_sentiment model_loaded parse_float env predict request_text
             = Analysis emotion confidence flag"
  shows "\<exists>t. threshold parse_float env = Some t
            \<and> (flag \<longleftrightarrow> emotion = ''suicidal'' \<and> confidence > t)"
proof (cases "threshold parse_float env")
  case None
  with assms show ?thesis
    by (simp add: analyze_sentiment_def Let_def split: if_splits option.splits prod.splits)
next
  case (Some t)
  with assms have "flag \<longleftrightarrow> emotion = ''suicidal'' \<and> confidence > t"
    by (auto simp: analyze_sentiment_def Let_def split: if_splits option.splits prod.splits)
  with Some show ?thesis by simp
qed

text \<open>
  Claim C1. The threshold is 0.75 when the environment variable is not set, and
  otherwise the number \<^verbatim>\<open>float\<close> reads from its value. A request that is analyzed (model
  loaded, text not empty, prediction and threshold available) is answered with the
  emotion, the confidence and the flag, and the flag of every such answer is true exactly
  when the emotion is \<^verbatim>\<open>suicidal\<close> and the confidence is strictly greater than that
  threshold. With the default threshold, confidence 0.80 gives true and 0.70 false.
\<close>

theorem needs_immediate_help_iff:
  "threshold parse_float None = Some 0.75
   \<and> threshold parse_float (Some s) = parse_float s
   \<and> (model_loaded \<and> text \<noteq> [] \<and> predict text = Some (emotion, confidence)
        \<and> threshold parse_float env = Some t \<longrightarrow>
      analyze_sentiment model_loaded parse_float env predict (Some text)
        = Analysis emotion confidence (emotion = ''suicidal'' \<and> confidence > t))
   \<and> (model_loaded \<and> text \<noteq> [] \<and> predict text = Some (emotion, confidence) \<longrightarrow>
      analyze_sentiment model_loaded parse_float None predict (Some text)
        = Analysis emotion confidence (emotion = ''suicidal'' \<and> confidence > 0.75))
   \<and> (model_loaded \<and> text \<noteq> [] \<and> predict text = Some (emotion, confidence)
        \<and> parse_float s = Some t \<longrightarrow>
      analyze_sentiment model_loaded parse_float (Some s) predict (Some text)
        = Analysis emotion confidence (emotion = ''suicidal'' \<and> confidence > t))
   \<and> (analyze_sentiment model_loaded parse_float env predict request_text
        = Analysis emotion' confidence' flag \<longrightarrow>
      (\<exists>t'. threshold parse_float env = Some t'
         \<and> (flag \<longleftrightarrow> emotion' = ''suicidal'' \<and> confidence' > t')))
   \<and> analyze_sentiment True parse_float None (fixed_prediction ''suicidal'' 0.80) (Some ''help'')
        = Analysis ''suicidal'' 0.80 True
   \<and> analyze_sentiment True parse_float None (fixed_prediction ''suicidal'' 0.70) (Some ''help'')
        = Analysis ''suicidal'' 0.70 False"
proof (intro conjI impI)
  show "threshold parse_float None = Some 0.75"
    by (rule threshold_default)
next
  show "threshold parse_float (Some s) = parse_float s"
    by (rule threshold_override)
next
  assume "model_loaded \<and> text \<noteq> [] \<and> predict text = Some (emotion, confidence)
        \<and> threshold parse_float env = Some t"
  then show "analyze_sentiment model_loaded parse_float env predict (Some text)
        = Analysis emotion confidence (emotion = ''suicidal'' \<and> confidence > t)"
    by (simp add: analyze_success)
next
  assume "model_loaded \<and> text \<noteq> [] \<and> predict text = Some (emotion, confidence)"
  then show "analyze_sentiment model_loaded parse_float None predict (Some text)
        = Analysis emotion confidence (emotion = ''suicidal'' \<and> confidence > 0.75)"
    using analyze_success [of model_loaded "text" predict emotion confidence parse_float None "0.75"]
    by (simp add: threshold_default)
next
  assume "model_loaded \<and> text \<noteq> [] \<and> predict text = Some (emotion, confidence)
        \<and> parse_float s = Some t"
  then show "analyze_sentiment model_loaded parse_float (Some s) predict (Some text)
        = Analysis emotion confidence (emotion = ''suicidal'' \<and> confidence > t)"
    using analyze_success [of model_loaded "text" predict emotion confidence parse_float "Some s" t]
    by (simp add: threshold_override)
next
  assume "analyze_sentiment model_loaded parse_float env predict request_text
        = Analysis emotion' confidence' flag"
  then show "\<exists>t'. threshold parse_float env = Some t'
         \<and> (flag \<longleftrightarrow> emotion' = ''suicidal'' \<and> confidence' > t')"
    by (rule analyze_flag)
next
  show "analyze_sentiment True parse_float None (fixed_prediction ''suicidal'' 0.80) (Some ''help'')
        = Analysis ''suicidal'' 0.80 True"
    using analyze_success [of True "''help''" "fixed_prediction ''suicidal'' 0.80" "''suicidal''" "0.80"
        parse_float None "0.75"]
    by (simp add: threshold_default fixed_prediction_def)
next
  show "analyze_sentiment True parse_float None (fixed_prediction ''suicidal'' 0.70) (Some ''help'')
        = Analysis ''suicidal'' 0.70 False"
    using analyze_success [of True "''help''" "fixed_prediction ''suicidal'' 0.70" "''suicidal''" "0.70"
        parse_float None "0.75"]
    by (simp add: threshold_default fixed_prediction_def)
qed

text \<open>
  The hypotheses of C1 at four requests: under the default threshold another emotion
  with high confidence, and \<^verbatim>\<open>suicidal\<close> with confidence equal to the threshold; under
  the overrides 0.5 and 0.9, \<^verbatim>\<open>suicidal\<close> with confidence 0.7 and 0.8.
\<close>

theorem needs_immediate_help_iff_witness:
  "analyze_sentiment True no_float None (fixed_prediction ''sad'' 0.9) (Some ''i feel sad'')
     = Analysis ''sad'' 0.9 False
   \<and> analyze_sentiment True no_float None (fixed_prediction ''suicidal'' 0.75) (Some ''help'')
     = Analysis ''suicidal'' 0.75 False
   \<and> analyze_sentiment True float_of (Some ''0.5'') (fixed_prediction ''suicidal'' 0.7) (Some ''help'')
     = Analysis ''suicidal'' 0.7 True
   \<and> analyze_sentiment True float_of (Some ''0.9'') (fixed_prediction ''suicidal'' 0.8) (Some ''help'')
     = Analysis ''suicidal'' 0.8 False"
proof -
  have a: "threshold no_float None = Some 0.75"
    using needs_immediate_help_iff [of no_float] by blast
  have "analyze_sentiment True no_float None (fixed_prediction ''sad'' 0.9) (Some ''i feel sad'')
     = Analysis ''sad'' 0.9 (''sad'' = ''suicidal'' \<and> (0.9::real) > 0.75)"
    using needs_immediate_help_iff
      [of no_float "[]" True "''i feel sad''" "fixed_prediction ''sad'' 0.9" "''sad''" "0.9" None "0.75"] a
    by (simp add: fixed_prediction_def)
  moreover
  have "analyze_sentiment True no_float None (fixed_prediction ''suicidal'' 0.75) (Some ''help'')
     = Analysis ''suicidal'' 0.75 (''suicidal'' = ''suicidal'' \<and> (0.75::real) > 0.75)"
    using needs_immediate_help_iff
      [of no_float "[]" True "''help''" "fixed_prediction ''suicidal'' 0.75" "''suicidal''" "0.75" None "0.75"] a
    by (simp add: fixed_prediction_def)
  moreover
  have "analyze_sentiment True float_of (Some ''0.5'') (fixed_prediction ''suicidal'' 0.7) (Some ''help'')
     = Analysis ''suicidal'' 0.7 (''suicidal'' = ''suicidal'' \<and> (0.7::real) > 0.5)"
    using needs_immediate_help_iff
      [of float_of "''0.5''" True "''help''" "fixed_prediction ''suicidal'' 0.7" "''suicidal''" "0.7" None "0.5"]
    by (simp add: fixed_prediction_def float_of_def)
  moreover
  have "analyze_sentiment True float_of (Some ''0.9'') (fixed_prediction ''suicidal'' 0.8) (Some ''help'')
     = Analysis ''suicidal'' 0.8 (''suicidal'' = ''suicidal'' \<and> (0.8::real) > 0.9)"
    using needs_immediate_help_iff
      [of float_of "''0.9''" True "''help''" "fixed_prediction ''suicidal'' 0.8" "''suicidal''" "0.8" None "0.9"]
    by (simp add: fixed_prediction_def float_of_def)
  ultimately show ?thesis by simp
qed

section \<open>Properties of dataset loading and of the run\<close>










lemma load_unreadable:
  "read_csv file_path = None \<Longrightarrow>
   load_and_preprocess_data read_csv tok lem ridx rnd file_path = Inl Read_error"
  by (simp add: load_and_preprocess_data_def)







end
